theory Spec2Isabelle
  imports Complex_Main "HOL-Library.Sublist"
begin

section \<open>Thrown values\<close>

text \<open>
  What a JavaScript \<^verbatim>\<open>catch\<close> clause can receive. \<open>JsError m st c\<close> is an instance of
  \<^verbatim>\<open>Error\<close> with message \<open>m\<close>, a numeric \<^verbatim>\<open>status\<close> property \<open>st\<close> (\<open>None\<close> when the
  property is absent) and an optional \<^verbatim>\<open>cause\<close>. \<open>Thrown s\<close> is any thrown value that is
  not an instance of \<^verbatim>\<open>Error\<close>; \<open>s\<close> is what \<^verbatim>\<open>String(error)\<close> gives for it.
  The source never sets a cause; the field is there so that a wrapping error can be told
  from the error it wraps.
\<close>

datatype js_error =
    JsError string "int option" "js_error option"
  | Thrown string

text \<open>
  \<^verbatim>\<open>error instanceof Error && "status" in error && (error as any).status === k\<close>
\<close>

fun has_status :: "int \<Rightarrow> js_error \<Rightarrow> bool" where
  "has_status k (JsError m st c) = (st = Some k)"
| "has_status k (Thrown s) = False"

text \<open>\<^verbatim>\<open>error instanceof Error ? error.message : String(error)\<close>\<close>

fun error_text :: "js_error \<Rightarrow> string" where
  "error_text (JsError m st c) = m"
| "error_text (Thrown s) = s"

fun cause_of :: "js_error \<Rightarrow> js_error option" where
  "cause_of (JsError m st c) = c"
| "cause_of (Thrown s) = None"

section \<open>The retry wrapper\<close>

text \<open>
  \<^verbatim>\<open>retryWithBackoff(fn, maxRetries = 3)\<close>. The operation \<open>fn\<close> is effectful, so it is a
  state transformer: it takes the state of the world it talks to and returns its outcome
  (\<open>Inl\<close> a thrown value, \<open>Inr\<close> the resolved value) with the new state. The attempt
  counter is an integer, and so is \<open>maxRetries\<close> here; the loop for a \<open>maxRetries\<close> that
  is not whole follows below. The result records, besides the outcome and
  the final state, the outcome of every invocation of \<open>fn\<close> in order, every delay passed
  to \<^verbatim>\<open>setTimeout\<close> in order (milliseconds), and whether control left the \<^verbatim>\<open>for\<close> loop
  and reached the \<^verbatim>\<open>throw\<close> placed after it.
\<close>

record ('a, 's) retry_result =
  outcome :: "js_error + 'a"
  final :: 's
  attempts :: "(js_error + 'a) list"
  waits :: "int list"
  fell_through :: bool

definition backoff_delay :: "int \<Rightarrow> int" where
  "backoff_delay attempt = min (1000 * 2 ^ nat attempt) 30000"

definition max_retries_exceeded :: js_error where
  "max_retries_exceeded = JsError ''Max retries exceeded'' None None"

function retry_loop ::
  "('s \<Rightarrow> (js_error + 'a) \<times> 's) \<Rightarrow> int \<Rightarrow> int \<Rightarrow> 's \<Rightarrow> ('a, 's) retry_result" where
  "retry_loop fn maxRetries attempt s =
     (if attempt \<le> maxRetries then
        (case fn s of
           (Inr v, s') \<Rightarrow>
             \<lparr>outcome = Inr v, final = s', attempts = [Inr v], waits = [],
              fell_through = False\<rparr>
         | (Inl error, s') \<Rightarrow>
             if has_status 429 error \<and> attempt < maxRetries then
               (let delay = backoff_delay attempt;
                    r = retry_loop fn maxRetries (attempt + 1) s'
                in r\<lparr>attempts := Inl error # attempts r, waits := delay # waits r\<rparr>)
             else
               \<lparr>outcome = Inl error, final = s', attempts = [Inl error], waits = [],
                fell_through = False\<rparr>)
      else
        \<lparr>outcome = Inl max_retries_exceeded, final = s, attempts = [], waits = [],
         fell_through = True\<rparr>)"
  by pat_completeness auto
termination
  by (relation "measure (\<lambda>(fn, maxRetries, attempt, s). nat (maxRetries + 1 - attempt))") auto

definition retryWithBackoff ::
  "('s \<Rightarrow> (js_error + 'a) \<times> 's) \<Rightarrow> int \<Rightarrow> 's \<Rightarrow> ('a, 's) retry_result" where
  "retryWithBackoff fn maxRetries s = retry_loop fn maxRetries 1 s"

text \<open>
  The source declares \<^verbatim>\<open>maxRetries: number\<close>, and a number need not be whole.
  \<open>retry_loop_number\<close> is the same loop with \<open>maxRetries\<close> any finite number, a rational
  (\<^verbatim>\<open>NaN\<close> and the infinities are left out); the attempt counter starts at 1 and is
  incremented by 1, so it stays an integer. \<open>retry_loop\<close> above is this loop at a whole
  \<open>maxRetries\<close>, as at the wrapper's one call site, which leaves it at the default 3.
\<close>

function retry_loop_number ::
  "('s \<Rightarrow> (js_error + 'a) \<times> 's) \<Rightarrow> rat \<Rightarrow> int \<Rightarrow> 's \<Rightarrow> ('a, 's) retry_result" where
  "retry_loop_number fn maxRetries attempt s =
     (if of_int attempt \<le> maxRetries then
        (case fn s of
           (Inr v, s') \<Rightarrow>
             \<lparr>outcome = Inr v, final = s', attempts = [Inr v], waits = [],
              fell_through = False\<rparr>
         | (Inl error, s') \<Rightarrow>
             if has_status 429 error \<and> of_int attempt < maxRetries then
               (let delay = backoff_delay attempt;
                    r = retry_loop_number fn maxRetries (attempt + 1) s'
                in r\<lparr>attempts := Inl error # attempts r, waits := delay # waits r\<rparr>)
             else
               \<lparr>outcome = Inl error, final = s', attempts = [Inl error], waits = [],
                fell_through = False\<rparr>)
      else
        \<lparr>outcome = Inl max_retries_exceeded, final = s, attempts = [], waits = [],
         fell_through = True\<rparr>)"
  by pat_completeness auto
termination
  by (relation "measure (\<lambda>(fn, maxRetries, attempt, s). nat (\<lfloor>maxRetries\<rfloor> + 1 - attempt))")
    (auto simp flip: le_floor_iff)

definition retryWithBackoff_number ::
  "('s \<Rightarrow> (js_error + 'a) \<times> 's) \<Rightarrow> rat \<Rightarrow> 's \<Rightarrow> ('a, 's) retry_result" where
  "retryWithBackoff_number fn maxRetries s = retry_loop_number fn maxRetries 1 s"


text \<open>The state of the world after \<open>k\<close> invocations of \<open>fn\<close>, starting from \<open>s\<close>.\<close>

primrec nth_state :: "('s \<Rightarrow> (js_error + 'a) \<times> 's) \<Rightarrow> 's \<Rightarrow> nat \<Rightarrow> 's" where
  "nth_state fn s 0 = s"
| "nth_state fn s (Suc k) = nth_state fn (snd (fn s)) k"

text \<open>
  The delay formula as the specification words it: the delay before attempt \<open>k\<close> is
  \<open>min (1000 * 2 ^ k) 30000\<close> milliseconds.
\<close>

definition spec_backoff_delay :: "nat \<Rightarrow> int" where
  "spec_backoff_delay k = min (1000 * 2 ^ k) 30000"

text \<open>
  What the specification asks of the failure after exhausted retries: a thrown value \<open>x\<close>
  that keeps the last underlying error \<open>e\<close> as its cause.
\<close>

definition preserves_cause :: "js_error \<Rightarrow> js_error \<Rightarrow> bool" where
  "preserves_cause e x = (cause_of x = Some e)"

subsection \<open>Concrete operations\<close>

text \<open>
  A scripted operation: the state counts the invocations made so far; invocation \<open>k\<close>
  (from 0) has the \<open>k\<close>-th outcome of the script, and \<open>d\<close> once the script is used up.
\<close>

definition scripted ::
  "(js_error + 'a) list \<Rightarrow> (js_error + 'a) \<Rightarrow> nat \<Rightarrow> (js_error + 'a) \<times> nat" where
  "scripted script d k = ((if k < length script then script ! k else d), Suc k)"

definition too_many_requests :: js_error where
  "too_many_requests = JsError ''Too Many Requests'' (Some 429) None"

definition unauthorized :: js_error where
  "unauthorized = JsError ''API key not valid'' (Some 401) None"

definition rate_limited :: "nat \<Rightarrow> (js_error + string) \<times> nat" where
  "rate_limited = scripted [] (Inl too_many_requests)"

section \<open>The item lookup tool\<close>

subsection \<open>The inventory provider\<close>

text \<open>
  The filter documents the tool sends to the collection: \<^verbatim>\<open>{}\<close> is \<open>FAll\<close>,
  \<^verbatim>\<open>{ field: { $regex: pattern, $options: options } }\<close> is \<open>FRegex field pattern options\<close>
  and \<^verbatim>\<open>{ $or: [...] }\<close> is \<open>FOr\<close>.
\<close>

datatype query_filter =
    FAll
  | FRegex string string string
  | FOr "query_filter list"

text \<open>
  The collection and the vector store are external: the tool sees them through three
  calls, each of which either throws or resolves. \<open>find_toArray p f k\<close> is
  \<^verbatim>\<open>collection.find(f).limit(k).toArray()\<close>; \<open>similaritySearchWithScore p q k\<close> stands for
  building the embeddings client and the vector store and then calling
  \<^verbatim>\<open>vectorStore.similaritySearchWithScore(q, k)\<close>. Documents (\<open>'d\<close>) and similarity scores
  (\<open>'sc\<close>) are passed through untouched, so they are type parameters.
\<close>

record ('d, 'sc) provider =
  countDocuments :: "js_error + nat"
  find_toArray :: "query_filter \<Rightarrow> int \<Rightarrow> js_error + 'd list"
  similaritySearchWithScore :: "string \<Rightarrow> int \<Rightarrow> js_error + ('d \<times> 'sc) list"

datatype provider_call =
    CountDocuments
  | Find query_filter int
  | SimilaritySearch string int

subsection \<open>Tool results\<close>

text \<open>
  The tool returns \<^verbatim>\<open>JSON.stringify\<close> of an object literal. The model keeps the object, as
  the list of its fields in the order the source writes them.
\<close>

datatype ('d, 'sc) json =
    JString string
  | JNumber int
  | JDocs "'d list"
  | JScored "('d \<times> 'sc) list"

type_synonym ('d, 'sc) json_object = "(string \<times> ('d, 'sc) json) list"

definition field :: "('d, 'sc) json_object \<Rightarrow> string \<Rightarrow> ('d, 'sc) json option" where
  "field obj k = map_of obj k"

text \<open>The length of the array in the \<^verbatim>\<open>results\<close> field, when there is one.\<close>

definition results_length :: "('d, 'sc) json_object \<Rightarrow> nat option" where
  "results_length obj =
     (case field obj ''results'' of
        Some (JDocs ds) \<Rightarrow> Some (length ds)
      | Some (JScored rs) \<Rightarrow> Some (length rs)
      | _ \<Rightarrow> None)"

subsection \<open>The handler\<close>

definition text_filter :: "string \<Rightarrow> query_filter" where
  "text_filter query =
     FOr [FRegex ''item_name'' query ''i'',
          FRegex ''item_description'' query ''i'',
          FRegex ''categories'' query ''i'',
          FRegex ''embedding_text'' query ''i'']"

definition empty_inventory_result :: "('d, 'sc) json_object" where
  "empty_inventory_result =
     [(''error'', JString ''No items found in inventory''),
      (''message'', JString ''The inventory database appears to ne empty''),
      (''count'', JNumber 0)]"

definition text_result :: "'d list \<Rightarrow> string \<Rightarrow> ('d, 'sc) json_object" where
  "text_result textResult query =
     [(''results'', JDocs textResult),
      (''searchType'', JString ''text''),
      (''query'', JString query),
      (''count'', JNumber (int (length textResult)))]"

definition vector_result :: "('d \<times> 'sc) list \<Rightarrow> string \<Rightarrow> ('d, 'sc) json_object" where
  "vector_result result query =
     [(''results'', JScored result),
      (''searchType'', JString ''vector''),
      (''query'', JString query),
      (''count'', JNumber (int (length result)))]"

definition error_result :: "js_error \<Rightarrow> string \<Rightarrow> ('d, 'sc) json_object" where
  "error_result error query =
     [(''error'', JString ''Failde to seach inventory''),
      (''details'', JString (error_text error)),
      (''query'', JString query)]"

text \<open>
  The body of the handler's \<^verbatim>\<open>try\<close> block. It returns what the block returns or throws,
  together with the provider calls it made, in order.
\<close>

definition lookup_try ::
  "('d, 'sc) provider \<Rightarrow> string \<Rightarrow> int \<Rightarrow>
   (js_error + ('d, 'sc) json_object) \<times> provider_call list" where
  "lookup_try p query n =
     (case countDocuments p of
        Inl error \<Rightarrow> (Inl error, [CountDocuments])
      | Inr totalCount \<Rightarrow>
          if totalCount = 0 then (Inr empty_inventory_result, [CountDocuments])
          else
            (case find_toArray p FAll 3 of
               Inl error \<Rightarrow> (Inl error, [CountDocuments, Find FAll 3])
             | Inr sampleDocs \<Rightarrow>
                 (case similaritySearchWithScore p query n of
                    Inl error \<Rightarrow>
                      (Inl error, [CountDocuments, Find FAll 3, SimilaritySearch query n])
                  | Inr result \<Rightarrow>
                      if length result = 0 then
                        (case find_toArray p (text_filter query) n of
                           Inl error \<Rightarrow>
                             (Inl error,
                              [CountDocuments, Find FAll 3, SimilaritySearch query n,
                               Find (text_filter query) n])
                         | Inr textResult \<Rightarrow>
                             (Inr (text_result textResult query),
                              [CountDocuments, Find FAll 3, SimilaritySearch query n,
                               Find (text_filter query) n]))
                      else
                        (Inr (vector_result result query),
                         [CountDocuments, Find FAll 3, SimilaritySearch query n]))))"

text \<open>
  The handler: \<^verbatim>\<open>async ({ query, n = 10 }) => { try { ... } catch (error) { ... } }\<close>. The
  \<^verbatim>\<open>catch\<close> block only logs and returns, so the handler has no outcome other than a
  result object.
\<close>

definition n_or_default :: "int option \<Rightarrow> int" where
  "n_or_default n_arg = (case n_arg of None \<Rightarrow> 10 | Some k \<Rightarrow> k)"

definition itemLookupTool ::
  "('d, 'sc) provider \<Rightarrow> string \<Rightarrow> int option \<Rightarrow>
   ('d, 'sc) json_object \<times> provider_call list" where
  "itemLookupTool p query n_arg =
     (let n = n_or_default n_arg in
      case lookup_try p query n of
        (Inr r, calls) \<Rightarrow> (r, calls)
      | (Inl error, calls) \<Rightarrow> (error_result error query, calls))"

subsection \<open>An in-memory collection\<close>

text \<open>
  A stand-in for the collection, for concrete runs. A document maps a field name to the
  strings stored under it (one for a string field, several for an array of strings). A
  filter is evaluated the way the database documents it: \<^verbatim>\<open>$or\<close> holds when one of its
  clauses holds, and \<^verbatim>\<open>$regex\<close> on a field holds when one of the field's strings matches.
  The regular-expression engine \<open>rx pattern options text\<close> is a parameter.
\<close>

type_synonym document = "(string \<times> string list) list"

definition field_values :: "document \<Rightarrow> string \<Rightarrow> string list" where
  "field_values d f = (case map_of d f of None \<Rightarrow> [] | Some vs \<Rightarrow> vs)"

fun matches :: "(string \<Rightarrow> string \<Rightarrow> string \<Rightarrow> bool) \<Rightarrow> query_filter \<Rightarrow> document \<Rightarrow> bool" where
  "matches rx FAll d = True"
| "matches rx (FRegex f pattern options) d = list_ex (rx pattern options) (field_values d f)"
| "matches rx (FOr fs) d = list_ex (\<lambda>f. matches rx f d) fs"

text \<open>\<^verbatim>\<open>limit(k)\<close>: no limit for 0, and the absolute value for a negative \<open>k\<close>.\<close>

definition limit :: "int \<Rightarrow> 'a list \<Rightarrow> 'a list" where
  "limit k xs = (if k = 0 then xs else take (nat \<bar>k\<bar>) xs)"

definition memory_provider ::
  "(string \<Rightarrow> string \<Rightarrow> string \<Rightarrow> bool) \<Rightarrow> document list \<Rightarrow>
   (string \<Rightarrow> int \<Rightarrow> js_error + (document \<times> 'sc) list) \<Rightarrow> (document, 'sc) provider" where
  "memory_provider rx docs vector_search =
     \<lparr>countDocuments = Inr (length docs),
      find_toArray = (\<lambda>f k. Inr (limit k (filter (matches rx f) docs))),
      similaritySearchWithScore = vector_search\<rparr>"

text \<open>
  The engine on a pattern without metacharacters: the pattern occurs in the text, with
  ASCII letters compared without case when the options contain \<open>i\<close>.
\<close>

definition lower_char :: "char \<Rightarrow> char" where
  "lower_char c =
     (case map_of (zip ''ABCDEFGHIJKLMNOPQRSTUVWXYZ'' ''abcdefghijklmnopqrstuvwxyz'') c of
        Some l \<Rightarrow> l
      | None \<Rightarrow> c)"

primrec occurs_in :: "string \<Rightarrow> string \<Rightarrow> bool" where
  "occurs_in pattern [] = (pattern = [])"
| "occurs_in pattern (c # cs) = (prefix pattern (c # cs) \<or> occurs_in pattern cs)"

definition literal_regex :: "string \<Rightarrow> string \<Rightarrow> string \<Rightarrow> bool" where
  "literal_regex pattern options text =
     (if CHR ''i'' \<in> set options
      then occurs_in (map lower_char pattern) (map lower_char text)
      else occurs_in pattern text)"

text \<open>
  The fallback filter as the specification words it: a match across the item name,
  description and category fields.
\<close>

definition spec_text_filter :: "string \<Rightarrow> query_filter" where
  "spec_text_filter query =
     FOr [FRegex ''item_name'' query ''i'',
          FRegex ''item_description'' query ''i'',
          FRegex ''categories'' query ''i'']"

definition oak_table :: document where
  "oak_table =
     [(''item_name'', [''Dining Table'']),
      (''item_description'', [''Seats six'']),
      (''categories'', [''Tables'', ''Dining'']),
      (''embedding_text'', [''Dining Table. Seats six. Solid Oak top.''])]"

definition no_vector_matches :: "string \<Rightarrow> int \<Rightarrow> js_error + (document \<times> int) list" where
  "no_vector_matches query k = Inr []"

definition vector_unreachable :: "string \<Rightarrow> int \<Rightarrow> js_error + (document \<times> int) list" where
  "vector_unreachable query k = Inl (JsError ''fetch failed'' None None)"

definition one_vector_match :: "string \<Rightarrow> int \<Rightarrow> js_error + (document \<times> int) list" where
  "one_vector_match query k = Inr [(oak_table, 87)]"

text \<open>
  Four shops: one whose vector index finds nothing, an empty one, one whose vector store
  cannot be reached, and one whose vector index finds the table.
\<close>

definition wood_shop :: "(document, int) provider" where
  "wood_shop = memory_provider literal_regex [oak_table] no_vector_matches"

definition empty_shop :: "(document, int) provider" where
  "empty_shop = memory_provider literal_regex [] no_vector_matches"

definition offline_shop :: "(document, int) provider" where
  "offline_shop = memory_provider literal_regex [oak_table] vector_unreachable"

definition indexed_shop :: "(document, int) provider" where
  "indexed_shop = memory_provider literal_regex [oak_table] one_vector_match"

section \<open>The agent\<close>

subsection \<open>Messages and the graph state\<close>

text \<open>
  The messages of a thread. An \<^verbatim>\<open>AIMessage\<close> carries its \<^verbatim>\<open>tool_calls\<close>, a list that is empty
  when the model asks for no tool; the other messages have no such property. A tool call
  is the name of the tool and its arguments.
\<close>

datatype tool_call = ToolCall string string

datatype message =
    HumanMessage string
  | AIMessage string "tool_call list"
  | ToolMessage string

fun content :: "message \<Rightarrow> string" where
  "content (HumanMessage c) = c"
| "content (AIMessage c tool_calls) = c"
| "content (ToolMessage c) = c"

text \<open>
  \<^verbatim>\<open>GraphState\<close> has the one channel \<^verbatim>\<open>messages\<close>, with the reducer
  \<^verbatim>\<open>(x, y) => x.concat(y)\<close>. A node returns an update for the channel, and the new value of
  the channel is the reducer applied to the old value and the update.
\<close>

record graph_state =
  messages :: "message list"

definition reducer :: "message list \<Rightarrow> message list \<Rightarrow> message list" where
  "reducer x y = x @ y"

definition apply_update :: "graph_state \<Rightarrow> message list \<Rightarrow> graph_state" where
  "apply_update state update = state\<lparr>messages := reducer (messages state) update\<rparr>"

subsection \<open>The nodes and the edges\<close>

definition type_error :: js_error where
  "type_error = JsError ''Cannot read properties of undefined'' None None"

datatype node = AgentNode | ToolsNode | EndNode

text \<open>
  \<^verbatim>\<open>shouldContinue\<close>: the last message is read at index \<^verbatim>\<open>messages.length - 1\<close>; on an empty
  list that is \<^verbatim>\<open>undefined\<close>, and reading \<^verbatim>\<open>tool_calls\<close> from it throws.
\<close>

definition shouldContinue :: "graph_state \<Rightarrow> js_error + node" where
  "shouldContinue state =
     (case messages state of
        [] \<Rightarrow> Inl type_error
      | _ \<Rightarrow>
          (case last (messages state) of
             AIMessage c tool_calls \<Rightarrow> if length tool_calls \<noteq> 0 then Inr ToolsNode else Inr EndNode
           | _ \<Rightarrow> Inr EndNode))"

text \<open>
  The language model is external: \<open>model l ms\<close> is one call of \<^verbatim>\<open>model.invoke\<close> on the
  prompt formatted from the messages \<open>ms\<close>, in the state \<open>l\<close> of the provider. It throws or
  resolves to a message, and leaves the provider in a new state. \<open>model_op\<close> is the
  function \<^verbatim>\<open>callModel\<close> passes to the retry wrapper: it resolves to the update
  \<^verbatim>\<open>{ messages: [result] }\<close>. \<^verbatim>\<open>callModel\<close> leaves \<^verbatim>\<open>maxRetries\<close> at its default, 3.
\<close>

definition model_op ::
  "('l \<Rightarrow> message list \<Rightarrow> (js_error + message) \<times> 'l) \<Rightarrow> graph_state \<Rightarrow>
   'l \<Rightarrow> (js_error + message list) \<times> 'l" where
  "model_op model state l =
     (case model l (messages state) of
        (Inl error, l') \<Rightarrow> (Inl error, l')
      | (Inr result, l') \<Rightarrow> (Inr [result], l'))"

definition callModel ::
  "('l \<Rightarrow> message list \<Rightarrow> (js_error + message) \<times> 'l) \<Rightarrow> graph_state \<Rightarrow>
   'l \<Rightarrow> (message list, 'l) retry_result" where
  "callModel model state l = retryWithBackoff (model_op model state) 3 l"

text \<open>
  One node of the workflow runs. The edges are those the source adds: from the agent
  along \<^verbatim>\<open>shouldContinue\<close>, from the tools back to the agent. The prebuilt tool node is a
  library component: \<open>toolNode\<close> is a parameter, a function from the state to the update
  it returns or the error it throws. A configuration is the node to run next, the graph
  state and the state of the model provider.
\<close>

fun graph_step ::
  "('l \<Rightarrow> message list \<Rightarrow> (js_error + message) \<times> 'l) \<Rightarrow>
   (graph_state \<Rightarrow> js_error + message list) \<Rightarrow>
   node \<times> graph_state \<times> 'l \<Rightarrow> js_error + node \<times> graph_state \<times> 'l" where
  "graph_step model toolNode (AgentNode, state, l) =
     (let r = callModel model state l in
      case outcome r of
        Inl error \<Rightarrow> Inl error
      | Inr update \<Rightarrow>
          (case shouldContinue (apply_update state update) of
             Inl error \<Rightarrow> Inl error
           | Inr next \<Rightarrow> Inr (next, apply_update state update, final r)))"
| "graph_step model toolNode (ToolsNode, state, l) =
     (case toolNode state of
        Inl error \<Rightarrow> Inl error
      | Inr update \<Rightarrow> Inr (AgentNode, apply_update state update, l))"
| "graph_step model toolNode (EndNode, state, l) = Inr (EndNode, state, l)"

text \<open>The first \<open>k\<close> node runs from a configuration, stopping at the first error.\<close>

fun run_steps ::
  "('l \<Rightarrow> message list \<Rightarrow> (js_error + message) \<times> 'l) \<Rightarrow>
   (graph_state \<Rightarrow> js_error + message list) \<Rightarrow> nat \<Rightarrow>
   node \<times> graph_state \<times> 'l \<Rightarrow> js_error + node \<times> graph_state \<times> 'l" where
  "run_steps model toolNode 0 c = Inr c"
| "run_steps model toolNode (Suc k) c =
     (case graph_step model toolNode c of
        Inl error \<Rightarrow> Inl error
      | Inr c' \<Rightarrow> run_steps model toolNode k c')"

subsection \<open>The turn\<close>

text \<open>
  \<^verbatim>\<open>callAgent\<close> wraps everything in \<^verbatim>\<open>try\<close>/\<^verbatim>\<open>catch\<close>. The run of the compiled graph
  (\<^verbatim>\<open>app.invoke\<close>, with its checkpointer and recursion limit) is the library's: \<open>invoked\<close>
  is the outcome of the \<^verbatim>\<open>try\<close> block up to and including that call, the error thrown or
  the final state. \<open>callAgent_catch\<close> is the error the \<^verbatim>\<open>catch\<close> block throws for the error
  it caught.
\<close>

definition callAgent_catch :: "js_error \<Rightarrow> js_error" where
  "callAgent_catch error =
     (if has_status 429 error then
        JsError
          ''Service temporarily unavailable due to rate limits. Please try again later.''
          None None
      else if has_status 401 error then
        JsError ''Authentication failed. Please check your API configuration.'' None None
      else JsError (''Agent failed: '' @ error_text error) None None)"

definition callAgent :: "js_error + graph_state \<Rightarrow> js_error + string" where
  "callAgent invoked =
     (case invoked of
        Inl error \<Rightarrow> Inl (callAgent_catch error)
      | Inr finalState \<Rightarrow>
          (case messages finalState of
             [] \<Rightarrow> Inl (callAgent_catch type_error)
           | _ \<Rightarrow> Inr (content (last (messages finalState)))))"

subsection \<open>Concrete providers\<close>

text \<open>
  A model that follows a script of outcomes whatever the messages are, two models that
  always fail, and a tool node that answers every request with one tool message.
\<close>

definition scripted_model ::
  "(js_error + message) list \<Rightarrow> (js_error + message) \<Rightarrow>
   nat \<Rightarrow> message list \<Rightarrow> (js_error + message) \<times> nat" where
  "scripted_model script d l ms = scripted script d l"

definition throttled_model :: "nat \<Rightarrow> message list \<Rightarrow> (js_error + message) \<times> nat" where
  "throttled_model = scripted_model [] (Inl too_many_requests)"

definition unauthorized_model :: "nat \<Rightarrow> message list \<Rightarrow> (js_error + message) \<times> nat" where
  "unauthorized_model = scripted_model [] (Inl unauthorized)"

definition lookup_request :: message where
  "lookup_request = AIMessage [] [ToolCall ''item_lookup'' ''oak'']"

definition final_answer :: message where
  "final_answer = AIMessage ''We have one oak table.'' []"

definition one_lookup_model :: "nat \<Rightarrow> message list \<Rightarrow> (js_error + message) \<times> nat" where
  "one_lookup_model = scripted_model [Inr lookup_request] (Inr final_answer)"

definition stub_toolNode :: "graph_state \<Rightarrow> js_error + message list" where
  "stub_toolNode state = Inr [ToolMessage ''1 result'']"

definition question :: graph_state where
  "question = \<lparr>messages = [HumanMessage ''Do you have oak tables?'']\<rparr>"

section \<open>Properties of the retry wrapper\<close>

declare retry_loop.simps [simp del]

lemma retry_loop_exit:
  "\<not> attempt \<le> maxRetries \<Longrightarrow>
   retry_loop fn maxRetries attempt s =
     \<lparr>outcome = Inl max_retries_exceeded, final = s, attempts = [], waits = [],
      fell_through = True\<rparr>"
  by (simp add: retry_loop.simps)

lemma retry_loop_ok:
  "attempt \<le> maxRetries \<Longrightarrow> fn s = (Inr v, s') \<Longrightarrow>
   retry_loop fn maxRetries attempt s =
     \<lparr>outcome = Inr v, final = s', attempts = [Inr v], waits = [], fell_through = False\<rparr>"
  by (simp add: retry_loop.simps)

lemma retry_loop_retry:
  "attempt < maxRetries \<Longrightarrow> fn s = (Inl e, s') \<Longrightarrow> has_status 429 e \<Longrightarrow>
   retry_loop fn maxRetries attempt s =
     (retry_loop fn maxRetries (attempt + 1) s')
       \<lparr>attempts := Inl e # attempts (retry_loop fn maxRetries (attempt + 1) s'),
        waits := backoff_delay attempt # waits (retry_loop fn maxRetries (attempt + 1) s')\<rparr>"
  by (subst retry_loop.simps) (simp add: Let_def)

lemma retry_loop_throw:
  "attempt \<le> maxRetries \<Longrightarrow> fn s = (Inl e, s') \<Longrightarrow>
   \<not> (has_status 429 e \<and> attempt < maxRetries) \<Longrightarrow>
   retry_loop fn maxRetries attempt s =
     \<lparr>outcome = Inl e, final = s', attempts = [Inl e], waits = [], fell_through = False\<rparr>"
  by (subst retry_loop.simps) auto

lemma retry_loop_cases [consumes 0, case_names exit ok retry throw]:
  assumes "\<not> attempt \<le> (maxRetries::int) \<Longrightarrow> P"
    and "\<And>v s'. attempt \<le> maxRetries \<Longrightarrow> fn s = (Inr v, s') \<Longrightarrow> P"
    and "\<And>e s'. attempt < maxRetries \<Longrightarrow> fn s = (Inl e, s') \<Longrightarrow> has_status 429 e \<Longrightarrow> P"
    and "\<And>e s'. attempt \<le> maxRetries \<Longrightarrow> fn s = (Inl e, s') \<Longrightarrow>
           \<not> (has_status 429 e \<and> attempt < maxRetries) \<Longrightarrow> P"
  shows P
proof (cases "attempt \<le> maxRetries")
  case False
  then show ?thesis by (rule assms(1))
next
  case le: True
  obtain x s' where fs: "fn s = (x, s')" by (cases "fn s")
  show ?thesis
  proof (cases x)
    case (Inr v)
    with le fs show ?thesis by (auto intro: assms(2))
  next
    case (Inl e)
    show ?thesis
    proof (cases "has_status 429 e \<and> attempt < maxRetries")
      case True
      with fs Inl show ?thesis by (auto intro: assms(3))
    next
      case False
      with le fs Inl show ?thesis by (auto intro: assms(4))
    qed
  qed
qed


lemma retry_loop_induct [case_names exit ok retry throw]:
  assumes "\<And>attempt s. \<not> attempt \<le> (maxRetries::int) \<Longrightarrow> P attempt s"
    and "\<And>attempt s v s'. attempt \<le> maxRetries \<Longrightarrow> fn s = (Inr v, s') \<Longrightarrow> P attempt s"
    and "\<And>attempt s e s'. attempt < maxRetries \<Longrightarrow> fn s = (Inl e, s') \<Longrightarrow>
           has_status 429 e \<Longrightarrow> P (attempt + 1) s' \<Longrightarrow> P attempt s"
    and "\<And>attempt s e s'. attempt \<le> maxRetries \<Longrightarrow> fn s = (Inl e, s') \<Longrightarrow>
           \<not> (has_status 429 e \<and> attempt < maxRetries) \<Longrightarrow> P attempt s"
  shows "P attempt s"
  using assms
proof (induction fn maxRetries attempt s rule: retry_loop.induct)
  case (1 fn maxRetries attempt s)
  show ?case
  proof (cases rule: retry_loop_cases [where attempt = attempt and maxRetries = maxRetries
        and fn = fn and s = s])
    case exit
    then show ?thesis by (rule "1.prems"(1))
  next
    case (ok v s')
    then show ?thesis by (rule "1.prems"(2))
  next
    case (retry e s')
    have "P (attempt + 1) s'"
      using retry "1.prems"
      by (intro "1.IH" [where x = "Inl e" and y = s' and a = e and xa = "backoff_delay attempt"])
        simp_all
    with retry show ?thesis by (intro "1.prems"(3) [of attempt s e s'])
  next
    case (throw e s')
    then show ?thesis by (rule "1.prems"(4))
  qed
qed

lemma retry_loop_fell_through:
  "fell_through (retry_loop fn maxRetries attempt s) = (maxRetries < attempt)"
  by (induction attempt s rule: retry_loop_induct [where fn = fn and maxRetries = maxRetries])
    (simp_all add: retry_loop_exit retry_loop_ok retry_loop_retry retry_loop_throw)


lemmas retry_loop_eqs = retry_loop_exit retry_loop_ok retry_loop_retry retry_loop_throw

lemma retry_loop_attempts_nonempty:
  "attempt \<le> maxRetries \<Longrightarrow> attempts (retry_loop fn maxRetries attempt s) \<noteq> []"
  by (cases rule: retry_loop_cases [where attempt = attempt and maxRetries = maxRetries
        and fn = fn and s = s]) (simp_all add: retry_loop_eqs)

lemma retry_loop_length_attempts:
  "length (attempts (retry_loop fn maxRetries attempt s)) \<le> nat (maxRetries + 1 - attempt)"
proof (induction attempt s rule: retry_loop_induct [where fn = fn and maxRetries = maxRetries])
  case (retry attempt s e s')
  then show ?case by (simp add: retry_loop_retry)
qed (simp_all add: retry_loop_eqs)

lemma retry_loop_length_waits:
  "length (waits (retry_loop fn maxRetries attempt s)) =
   length (attempts (retry_loop fn maxRetries attempt s)) - 1"
proof (induction attempt s rule: retry_loop_induct [where fn = fn and maxRetries = maxRetries])
  case (exit attempt s)
  then show ?case by (simp add: retry_loop_exit)
next
  case (ok attempt s v s')
  then show ?case by (simp add: retry_loop_ok)
next
  case (retry attempt s e s')
  define r where "r = retry_loop fn maxRetries (attempt + 1) s'"
  have eq: "retry_loop fn maxRetries attempt s =
      r\<lparr>attempts := Inl e # attempts r, waits := backoff_delay attempt # waits r\<rparr>"
    unfolding r_def using retry(1,2,3) by (rule retry_loop_retry)
  from retry(1) have "attempts r \<noteq> []"
    unfolding r_def by (intro retry_loop_attempts_nonempty) simp
  moreover from retry(4) have "length (waits r) = length (attempts r) - 1"
    by (simp add: r_def)
  ultimately show ?case
    unfolding eq by (cases "attempts r") simp_all
next
  case (throw attempt s e s')
  then show ?case by (simp add: retry_loop_throw)
qed

lemma retry_loop_waits_nth:
  "i < length (waits (retry_loop fn maxRetries attempt s)) \<Longrightarrow>
   waits (retry_loop fn maxRetries attempt s) ! i = backoff_delay (attempt + int i)"
proof (induction attempt s arbitrary: i rule: retry_loop_induct [where fn = fn and maxRetries = maxRetries])
  case (exit attempt s)
  then show ?case by (simp add: retry_loop_exit)
next
  case (ok attempt s v s')
  then show ?case by (simp add: retry_loop_ok)
next
  case (retry attempt s e s')
  define r where "r = retry_loop fn maxRetries (attempt + 1) s'"
  have eq: "retry_loop fn maxRetries attempt s =
      r\<lparr>attempts := Inl e # attempts r, waits := backoff_delay attempt # waits r\<rparr>"
    unfolding r_def using retry(1,2,3) by (rule retry_loop_retry)
  from retry(1) have ne: "attempts r \<noteq> []"
    unfolding r_def by (intro retry_loop_attempts_nonempty) simp
  show ?case
  proof (cases i)
    case 0
    then show ?thesis unfolding eq by simp
  next
    case (Suc j)
    with retry(5) have "j < length (waits r)" unfolding eq by simp
    then have "waits r ! j = backoff_delay (attempt + 1 + int j)"
      unfolding r_def by (rule retry(4))
    with Suc show ?thesis unfolding eq by (simp add: algebra_simps)
  qed
next
  case (throw attempt s e s')
  then show ?case by (simp add: retry_loop_throw)
qed

lemma retry_loop_outcome_last:
  "attempt \<le> maxRetries \<Longrightarrow>
   outcome (retry_loop fn maxRetries attempt s) =
     last (attempts (retry_loop fn maxRetries attempt s))"
proof (induction attempt s rule: retry_loop_induct [where fn = fn and maxRetries = maxRetries])
  case (exit attempt s)
  then show ?case by (simp add: retry_loop_exit)
next
  case (ok attempt s v s')
  then show ?case by (simp add: retry_loop_ok)
next
  case (retry attempt s e s')
  define r where "r = retry_loop fn maxRetries (attempt + 1) s'"
  have eq: "retry_loop fn maxRetries attempt s =
      r\<lparr>attempts := Inl e # attempts r, waits := backoff_delay attempt # waits r\<rparr>"
    unfolding r_def using retry(1,2,3) by (rule retry_loop_retry)
  from retry(1) have ne: "attempts r \<noteq> []"
    unfolding r_def by (intro retry_loop_attempts_nonempty) simp
  from retry(1) have "outcome r = last (attempts r)"
    unfolding r_def by (intro retry(4)) simp
  with ne show ?case unfolding eq by simp
next
  case (throw attempt s e s')
  then show ?case by (simp add: retry_loop_throw)
qed


lemma retry_loop_attempts_nth:
  "i < length (attempts (retry_loop fn maxRetries attempt s)) \<Longrightarrow>
   attempts (retry_loop fn maxRetries attempt s) ! i = fst (fn (nth_state fn s i))"
proof (induction attempt s arbitrary: i rule: retry_loop_induct [where fn = fn and maxRetries = maxRetries])
  case (exit attempt s)
  then show ?case by (simp add: retry_loop_exit)
next
  case (ok attempt s v s')
  then show ?case by (simp add: retry_loop_ok)
next
  case (retry attempt s e s')
  define r where "r = retry_loop fn maxRetries (attempt + 1) s'"
  have eq: "retry_loop fn maxRetries attempt s =
      r\<lparr>attempts := Inl e # attempts r, waits := backoff_delay attempt # waits r\<rparr>"
    unfolding r_def using retry(1,2,3) by (rule retry_loop_retry)
  from retry(1) have ne: "attempts r \<noteq> []"
    unfolding r_def by (intro retry_loop_attempts_nonempty) simp
  show ?case
  proof (cases i)
    case 0
    with retry(2) show ?thesis unfolding eq by simp
  next
    case (Suc j)
    with retry(5) have "j < length (attempts r)" unfolding eq by simp
    then have "attempts r ! j = fst (fn (nth_state fn s' j))"
      unfolding r_def by (rule retry(4))
    with Suc retry(2) show ?thesis unfolding eq by simp
  qed
next
  case (throw attempt s e s')
  then show ?case by (simp add: retry_loop_throw)
qed

lemma retry_loop_final:
  "final (retry_loop fn maxRetries attempt s) =
   nth_state fn s (length (attempts (retry_loop fn maxRetries attempt s)))"
proof (induction attempt s rule: retry_loop_induct [where fn = fn and maxRetries = maxRetries])
  case (exit attempt s)
  then show ?case by (simp add: retry_loop_exit)
next
  case (ok attempt s v s')
  then show ?case by (simp add: retry_loop_ok)
next
  case (retry attempt s e s')
  define r where "r = retry_loop fn maxRetries (attempt + 1) s'"
  have eq: "retry_loop fn maxRetries attempt s =
      r\<lparr>attempts := Inl e # attempts r, waits := backoff_delay attempt # waits r\<rparr>"
    unfolding r_def using retry(1,2,3) by (rule retry_loop_retry)
  from retry(1) have ne: "attempts r \<noteq> []"
    unfolding r_def by (intro retry_loop_attempts_nonempty) simp
  have "final r = nth_state fn s' (length (attempts r))"
    unfolding r_def by (rule retry(4))
  with retry(2) show ?case unfolding eq by simp
next
  case (throw attempt s e s')
  then show ?case by (simp add: retry_loop_throw)
qed

lemma retry_loop_last_429:
  "attempt \<le> maxRetries \<Longrightarrow>
   last (attempts (retry_loop fn maxRetries attempt s)) = Inl x \<Longrightarrow> has_status 429 x \<Longrightarrow>
   length (attempts (retry_loop fn maxRetries attempt s)) = nat (maxRetries + 1 - attempt)"
proof (induction attempt s rule: retry_loop_induct [where fn = fn and maxRetries = maxRetries])
  case (exit attempt s)
  then show ?case by (simp add: retry_loop_exit)
next
  case (ok attempt s v s')
  then show ?case by (simp add: retry_loop_ok)
next
  case (retry attempt s e s')
  define r where "r = retry_loop fn maxRetries (attempt + 1) s'"
  have eq: "retry_loop fn maxRetries attempt s =
      r\<lparr>attempts := Inl e # attempts r, waits := backoff_delay attempt # waits r\<rparr>"
    unfolding r_def using retry(1,2,3) by (rule retry_loop_retry)
  from retry(1) have ne: "attempts r \<noteq> []"
    unfolding r_def by (intro retry_loop_attempts_nonempty) simp
  from retry(6) ne have "last (attempts r) = Inl x" unfolding eq by simp
  with retry(1,7) have "length (attempts r) = nat (maxRetries + 1 - (attempt + 1))"
    unfolding r_def by (intro retry(4)) simp_all
  with retry(1) show ?case unfolding eq by simp
next
  case (throw attempt s e s')
  then show ?case by (auto simp add: retry_loop_throw)
qed

lemma retry_loop_all_429:
  assumes le: "attempt \<le> maxRetries"
    and all: "\<forall>i < nat (maxRetries + 1 - attempt).
        \<exists>e. fst (fn (nth_state fn s i)) = Inl e \<and> has_status 429 e"
  shows "length (attempts (retry_loop fn maxRetries attempt s)) = nat (maxRetries + 1 - attempt)"
proof -
  define r where "r = retry_loop fn maxRetries attempt s"
  have ne: "attempts r \<noteq> []"
    unfolding r_def using le by (rule retry_loop_attempts_nonempty)
  have len: "length (attempts r) \<le> nat (maxRetries + 1 - attempt)"
    unfolding r_def by (rule retry_loop_length_attempts)
  from ne have lt: "length (attempts r) - 1 < length (attempts r)" by simp
  then have "attempts r ! (length (attempts r) - 1) =
      fst (fn (nth_state fn s (length (attempts r) - 1)))"
    unfolding r_def by (rule retry_loop_attempts_nth)
  moreover from lt len all obtain e where
    "fst (fn (nth_state fn s (length (attempts r) - 1))) = Inl e" "has_status 429 e"
    by (meson less_le_trans)
  ultimately have "last (attempts r) = Inl e" using ne by (simp add: last_conv_nth)
  with le \<open>has_status 429 e\<close> show ?thesis
    unfolding r_def by (intro retry_loop_last_429 [where x = e])
qed

lemma retry_loop_outcome_nth:
  assumes le: "attempt \<le> maxRetries"
  shows "outcome (retry_loop fn maxRetries attempt s) =
    fst (fn (nth_state fn s (length (attempts (retry_loop fn maxRetries attempt s)) - 1)))"
proof -
  define r where "r = retry_loop fn maxRetries attempt s"
  have ne: "attempts r \<noteq> []"
    unfolding r_def using le by (rule retry_loop_attempts_nonempty)
  then have "length (attempts r) - 1 < length (attempts r)" by simp
  then have "attempts r ! (length (attempts r) - 1) =
      fst (fn (nth_state fn s (length (attempts r) - 1)))"
    unfolding r_def by (rule retry_loop_attempts_nth)
  moreover have "outcome r = last (attempts r)"
    unfolding r_def using le by (rule retry_loop_outcome_last)
  ultimately show ?thesis using ne unfolding r_def by (simp add: last_conv_nth)
qed


lemmas retry_eval = retryWithBackoff_def retry_loop.simps rate_limited_def scripted_def
  too_many_requests_def unauthorized_def backoff_delay_def



declare retry_loop_number.simps [simp del]

text \<open>At a whole \<open>maxRetries\<close> the two loops are the same.\<close>

lemma retry_loop_number_of_int:
  "retry_loop_number fn (of_int maxRetries) attempt s = retry_loop fn maxRetries attempt s"
proof (induction attempt s rule: retry_loop_induct [where fn = fn and maxRetries = maxRetries])
  case (exit attempt s)
  then show ?case
    by (subst retry_loop_number.simps) (simp add: retry_loop_exit)
next
  case (ok attempt s v s')
  then show ?case
    by (subst retry_loop_number.simps) (simp add: retry_loop_ok)
next
  case (retry attempt s e s')
  from retry(1,2,3) have "retry_loop_number fn (of_int maxRetries) attempt s =
      (retry_loop_number fn (of_int maxRetries) (attempt + 1) s')
        \<lparr>attempts := Inl e #
           attempts (retry_loop_number fn (of_int maxRetries) (attempt + 1) s'),
         waits := backoff_delay attempt #
           waits (retry_loop_number fn (of_int maxRetries) (attempt + 1) s')\<rparr>"
    by (subst retry_loop_number.simps) (simp add: Let_def)
  with retry show ?case by (simp add: retry_loop_retry)
next
  case (throw attempt s e s')
  then show ?case
    by (subst retry_loop_number.simps) (auto simp add: retry_loop_throw)
qed

lemmas retry_number_eval = retryWithBackoff_number_def retry_loop_number.simps rate_limited_def
  scripted_def too_many_requests_def backoff_delay_def max_retries_exceeded_def

text \<open>
  Claim C10, as the code has it. For a whole \<open>maxRetries \<ge> 1\<close> the wrapper's outcome is
  the outcome of its last invocation of the operation, a value it returned or the very
  error it threw; the \<^verbatim>\<open>throw\<close> after the loop is not reached; a failure with status 429
  on the final attempt is rethrown as it is.
\<close>
theorem retryWithBackoff_fallback_unreachable:
  "1 \<le> maxRetries \<Longrightarrow>
   (let r = retryWithBackoff_number fn (of_int maxRetries) s in
      \<not> fell_through r \<and> attempts r \<noteq> [] \<and> length (attempts r) \<le> nat maxRetries \<and>
      outcome r = fst (fn (nth_state fn s (length (attempts r) - 1))) \<and>
      (\<forall>e. length (attempts r) = nat maxRetries \<and>
           fst (fn (nth_state fn s (nat maxRetries - 1))) = Inl e \<and> has_status 429 e \<longrightarrow>
         outcome r = Inl e))"
proof -
  assume le: "1 \<le> maxRetries"
  define r where "r = retryWithBackoff_number fn (of_int maxRetries) s"
  have r: "r = retry_loop fn maxRetries 1 s"
    by (simp add: r_def retryWithBackoff_number_def retry_loop_number_of_int)
  from le have "\<not> fell_through r"
    by (simp add: r retry_loop_fell_through)
  moreover have "attempts r \<noteq> []"
    unfolding r using le by (rule retry_loop_attempts_nonempty)
  moreover have "length (attempts r) \<le> nat maxRetries"
    using retry_loop_length_attempts [of fn maxRetries 1 s] by (simp add: r)
  moreover have out: "outcome r = fst (fn (nth_state fn s (length (attempts r) - 1)))"
    unfolding r using le by (rule retry_loop_outcome_nth)
  ultimately show ?thesis
    unfolding Let_def r_def [symmetric] by auto
qed

text \<open>With three attempts the rate-limited operation's own error comes out.\<close>
theorem retryWithBackoff_fallback_unreachable_witness:
  "(1::int) \<le> 3 \<and> \<not> fell_through (retryWithBackoff_number rate_limited (of_int 3) 0)
   \<and> attempts (retryWithBackoff_number rate_limited (of_int 3) 0) =
       [Inl too_many_requests, Inl too_many_requests, Inl too_many_requests]
   \<and> outcome (retryWithBackoff_number rate_limited (of_int 3) 0) = Inl too_many_requests"
  using retryWithBackoff_fallback_unreachable [of 3 rate_limited 0]
  by (simp add: retry_number_eval)

text \<open>
  Claim C10 as stated fails: at \<open>maxRetries = 2.5\<close> an operation that is always
  rate-limited is invoked twice and retried twice, the third pass fails the loop test, and
  the \<^verbatim>\<open>throw\<close> after the loop is reached with an error the operation never threw.
\<close>
theorem retryWithBackoff_fallback_counterexample:
  "(1::rat) \<le> 5 / 2
   \<and> attempts (retryWithBackoff_number rate_limited (5 / 2) 0) =
       [Inl too_many_requests, Inl too_many_requests]
   \<and> waits (retryWithBackoff_number rate_limited (5 / 2) 0) = [2000, 4000]
   \<and> fell_through (retryWithBackoff_number rate_limited (5 / 2) 0)
   \<and> outcome (retryWithBackoff_number rate_limited (5 / 2) 0) = Inl max_retries_exceeded
   \<and> Inl max_retries_exceeded \<notin> set (attempts (retryWithBackoff_number rate_limited (5 / 2) 0))"
  by (simp add: retry_number_eval)

text \<open>
  Claim C4, as the code has it. After \<open>maxRetries\<close> consecutive failures with status 429
  the wrapper has invoked the operation \<open>maxRetries\<close> times and fails with the error of
  the last invocation itself, not with a wrapper around it.
\<close>
theorem retryWithBackoff_exhausted_rethrows_last:
  "1 \<le> maxRetries \<Longrightarrow>
   \<forall>i < nat maxRetries. \<exists>e. fst (fn (nth_state fn s i)) = Inl e \<and> has_status 429 e \<Longrightarrow>
   (let r = retryWithBackoff fn maxRetries s in
      length (attempts r) = nat maxRetries \<and> \<not> fell_through r \<and>
      outcome r = fst (fn (nth_state fn s (nat maxRetries - 1))) \<and>
      (\<exists>e. outcome r = Inl e \<and> has_status 429 e))"
proof -
  assume le: "1 \<le> maxRetries"
    and all: "\<forall>i < nat maxRetries. \<exists>e. fst (fn (nth_state fn s i)) = Inl e \<and> has_status 429 e"
  define r where "r = retryWithBackoff fn maxRetries s"
  from le all have len: "length (attempts r) = nat maxRetries"
    using retry_loop_all_429 [of 1 maxRetries fn s] by (simp add: r_def retryWithBackoff_def)
  from le have nf: "\<not> fell_through r"
    by (simp add: r_def retryWithBackoff_def retry_loop_fell_through)
  have "outcome r = fst (fn (nth_state fn s (length (attempts r) - 1)))"
    unfolding r_def retryWithBackoff_def using le by (rule retry_loop_outcome_nth)
  with len have out: "outcome r = fst (fn (nth_state fn s (nat maxRetries - 1)))" by simp
  from le have "nat maxRetries - 1 < nat maxRetries" by simp
  with all out have "\<exists>e. outcome r = Inl e \<and> has_status 429 e" by simp
  with len nf out show ?thesis unfolding Let_def r_def [symmetric] by blast
qed

theorem retryWithBackoff_exhausted_rethrows_last_witness:
  "(1::int) \<le> 3
   \<and> fst (rate_limited (nth_state rate_limited 0 0)) = Inl too_many_requests
   \<and> fst (rate_limited (nth_state rate_limited 0 1)) = Inl too_many_requests
   \<and> fst (rate_limited (nth_state rate_limited 0 2)) = Inl too_many_requests
   \<and> has_status 429 too_many_requests
   \<and> outcome (retryWithBackoff rate_limited 3 0) = Inl too_many_requests
   \<and> length (attempts (retryWithBackoff rate_limited 3 0)) = 3"
proof -
  have h: "\<forall>i < nat 3. \<exists>e. fst (rate_limited (nth_state rate_limited 0 i)) = Inl e \<and>
      has_status 429 e"
    by (simp add: rate_limited_def scripted_def too_many_requests_def)
  from retryWithBackoff_exhausted_rethrows_last [of 3 rate_limited 0, OF _ h]
  show ?thesis by (simp add: retry_eval numeral_2_eq_2)
qed

text \<open>
  Claim C4 as stated fails: after three rate-limit failures the thrown value is the
  provider's error, which does not carry that error as its cause and is not the
  \<^verbatim>\<open>Max retries exceeded\<close> error either.
\<close>
theorem retryWithBackoff_exhausted_counterexample:
  "outcome (retryWithBackoff rate_limited 3 0) = Inl too_many_requests
   \<and> \<not> preserves_cause too_many_requests too_many_requests
   \<and> too_many_requests \<noteq> max_retries_exceeded"
  by (simp add: retry_eval preserves_cause_def max_retries_exceeded_def)

text \<open>
  Claim C3, as the code has it. There is one delay between two consecutive attempts, the
  delay before attempt \<open>k \<ge> 2\<close> is \<open>min (1000 * 2 ^ (k - 1)) 30000\<close> milliseconds, and
  when three attempts out of three fail with status 429 the delays are 2000 and 4000,
  6000 in total, which is between 3000 and the cap of 30000.
\<close>
theorem retryWithBackoff_delays:
  "(let r = retryWithBackoff fn maxRetries s in
      length (waits r) = length (attempts r) - 1 \<and>
      (\<forall>k. 2 \<le> k \<and> k \<le> length (attempts r) \<longrightarrow>
         waits r ! (k - 2) = min (1000 * 2 ^ (k - 1)) 30000) \<and>
      (maxRetries = 3 \<and>
       (\<forall>i < 3. \<exists>e. fst (fn (nth_state fn s i)) = Inl e \<and> has_status 429 e) \<longrightarrow>
         waits r = [2000, 4000] \<and> sum_list (waits r) = 6000 \<and>
         3000 \<le> sum_list (waits r) \<and> sum_list (waits r) \<le> 30000))"
proof -
  define r where "r = retryWithBackoff fn maxRetries s"
  have len: "length (waits r) = length (attempts r) - 1"
    unfolding r_def retryWithBackoff_def by (rule retry_loop_length_waits)
  have nth: "waits r ! (k - 2) = min (1000 * 2 ^ (k - 1)) 30000"
    if k: "2 \<le> k" "k \<le> length (attempts r)" for k
  proof -
    from k len have "k - 2 < length (waits r)" by simp
    then have "waits r ! (k - 2) = backoff_delay (1 + int (k - 2))"
      unfolding r_def retryWithBackoff_def by (rule retry_loop_waits_nth)
    moreover from k have "nat (1 + int (k - 2)) = k - 1" by simp
    then have "backoff_delay (1 + int (k - 2)) = min (1000 * 2 ^ (k - 1)) 30000"
      unfolding backoff_delay_def by (simp only:)
    ultimately show ?thesis by (simp only:)
  qed
  have three: "waits r = [2000, 4000]"
    if m: "maxRetries = 3"
      and all: "\<forall>i < 3. \<exists>e. fst (fn (nth_state fn s i)) = Inl e \<and> has_status 429 e"
  proof -
    from m all have "length (attempts r) = 3"
      using retry_loop_all_429 [of 1 maxRetries fn s] by (simp add: r_def retryWithBackoff_def)
    with len nth [of 2] nth [of 3] have "length (waits r) = 2" "waits r ! 0 = 2000"
      "waits r ! 1 = 4000" by simp_all
    then show ?thesis
      by (cases "waits r"; cases "tl (waits r)") auto
  qed
  from len nth three show ?thesis
    unfolding Let_def r_def [symmetric] by auto
qed

theorem retryWithBackoff_delays_witness:
  "fst (rate_limited (nth_state rate_limited 0 0)) = Inl too_many_requests
   \<and> fst (rate_limited (nth_state rate_limited 0 1)) = Inl too_many_requests
   \<and> fst (rate_limited (nth_state rate_limited 0 2)) = Inl too_many_requests
   \<and> has_status 429 too_many_requests
   \<and> length (attempts (retryWithBackoff rate_limited 3 0)) = 3
   \<and> waits (retryWithBackoff rate_limited 3 0) = [2000, 4000]
   \<and> sum_list (waits (retryWithBackoff rate_limited 3 0)) = 6000"
proof -
  have h: "\<forall>i < 3. \<exists>e. fst (rate_limited (nth_state rate_limited 0 i)) = Inl e \<and>
      has_status 429 e"
    by (simp add: rate_limited_def scripted_def too_many_requests_def)
  from retryWithBackoff_delays [of rate_limited 3 0] h
  show ?thesis by (simp add: retry_eval numeral_2_eq_2)
qed

text \<open>
  Claim C3 as stated fails: the delay before attempt 2 is 2000 milliseconds, where the
  stated formula gives 4000.
\<close>
theorem retryWithBackoff_delays_counterexample:
  "length (attempts (retryWithBackoff rate_limited 3 0)) = 3
   \<and> waits (retryWithBackoff rate_limited 3 0) = [2000, 4000]
   \<and> spec_backoff_delay 2 = 4000
   \<and> waits (retryWithBackoff rate_limited 3 0) ! 0 \<noteq> spec_backoff_delay 2"
  by (simp add: retry_eval spec_backoff_delay_def)

section \<open>Properties of the item lookup tool\<close>

lemma text_filter_not_all: "text_filter query \<noteq> FAll"
  by (simp add: text_filter_def)

lemma lookup_try_count_fails:
  "countDocuments p = Inl e \<Longrightarrow> lookup_try p query n = (Inl e, [CountDocuments])"
  by (simp add: lookup_try_def)

lemma lookup_try_empty:
  "countDocuments p = Inr 0 \<Longrightarrow>
   lookup_try p query n = (Inr empty_inventory_result, [CountDocuments])"
  by (simp add: lookup_try_def)

lemma lookup_try_sample_fails:
  "countDocuments p = Inr c \<Longrightarrow> c \<noteq> 0 \<Longrightarrow> find_toArray p FAll 3 = Inl e \<Longrightarrow>
   lookup_try p query n = (Inl e, [CountDocuments, Find FAll 3])"
  by (simp add: lookup_try_def)

lemma lookup_try_vector_fails:
  "countDocuments p = Inr c \<Longrightarrow> c \<noteq> 0 \<Longrightarrow> find_toArray p FAll 3 = Inr ds \<Longrightarrow>
   similaritySearchWithScore p query n = Inl e \<Longrightarrow>
   lookup_try p query n = (Inl e, [CountDocuments, Find FAll 3, SimilaritySearch query n])"
  by (simp add: lookup_try_def)

lemma lookup_try_vector:
  "countDocuments p = Inr c \<Longrightarrow> c \<noteq> 0 \<Longrightarrow> find_toArray p FAll 3 = Inr ds \<Longrightarrow>
   similaritySearchWithScore p query n = Inr result \<Longrightarrow> result \<noteq> [] \<Longrightarrow>
   lookup_try p query n =
     (Inr (vector_result result query),
      [CountDocuments, Find FAll 3, SimilaritySearch query n])"
  by (simp add: lookup_try_def)

lemma lookup_try_text_fails:
  "countDocuments p = Inr c \<Longrightarrow> c \<noteq> 0 \<Longrightarrow> find_toArray p FAll 3 = Inr ds \<Longrightarrow>
   similaritySearchWithScore p query n = Inr [] \<Longrightarrow>
   find_toArray p (text_filter query) n = Inl e \<Longrightarrow>
   lookup_try p query n =
     (Inl e,
      [CountDocuments, Find FAll 3, SimilaritySearch query n, Find (text_filter query) n])"
  by (simp add: lookup_try_def)

lemma lookup_try_text:
  "countDocuments p = Inr c \<Longrightarrow> c \<noteq> 0 \<Longrightarrow> find_toArray p FAll 3 = Inr ds \<Longrightarrow>
   similaritySearchWithScore p query n = Inr [] \<Longrightarrow>
   find_toArray p (text_filter query) n = Inr textResult \<Longrightarrow>
   lookup_try p query n =
     (Inr (text_result textResult query),
      [CountDocuments, Find FAll 3, SimilaritySearch query n, Find (text_filter query) n])"
  by (simp add: lookup_try_def)

lemmas lookup_try_eqs = lookup_try_count_fails lookup_try_empty lookup_try_sample_fails
  lookup_try_vector_fails lookup_try_vector lookup_try_text_fails lookup_try_text

text \<open>Every run of the \<^verbatim>\<open>try\<close> block is one of the seven above.\<close>

lemma lookup_try_cases [case_names count_throws inventory_empty sample_throws vector_throws
    vector_hit text_throws text_hit]:
  assumes "\<And>e. countDocuments p = Inl e \<Longrightarrow> P"
    and "countDocuments p = Inr 0 \<Longrightarrow> P"
    and "\<And>c e. countDocuments p = Inr c \<Longrightarrow> c \<noteq> 0 \<Longrightarrow> find_toArray p FAll 3 = Inl e \<Longrightarrow> P"
    and "\<And>c ds e. countDocuments p = Inr c \<Longrightarrow> c \<noteq> 0 \<Longrightarrow> find_toArray p FAll 3 = Inr ds \<Longrightarrow>
           similaritySearchWithScore p query n = Inl e \<Longrightarrow> P"
    and "\<And>c ds result. countDocuments p = Inr c \<Longrightarrow> c \<noteq> 0 \<Longrightarrow>
           find_toArray p FAll 3 = Inr ds \<Longrightarrow>
           similaritySearchWithScore p query n = Inr result \<Longrightarrow> result \<noteq> [] \<Longrightarrow> P"
    and "\<And>c ds e. countDocuments p = Inr c \<Longrightarrow> c \<noteq> 0 \<Longrightarrow> find_toArray p FAll 3 = Inr ds \<Longrightarrow>
           similaritySearchWithScore p query n = Inr [] \<Longrightarrow>
           find_toArray p (text_filter query) n = Inl e \<Longrightarrow> P"
    and "\<And>c ds textResult. countDocuments p = Inr c \<Longrightarrow> c \<noteq> 0 \<Longrightarrow>
           find_toArray p FAll 3 = Inr ds \<Longrightarrow>
           similaritySearchWithScore p query n = Inr [] \<Longrightarrow>
           find_toArray p (text_filter query) n = Inr textResult \<Longrightarrow> P"
  shows P
proof (cases "countDocuments p")
  case (Inl e)
  then show ?thesis by (rule assms(1))
next
  case count: (Inr c)
  show ?thesis
  proof (cases "c = 0")
    case True
    with count show ?thesis by (simp add: assms(2))
  next
    case nz: False
    show ?thesis
    proof (cases "find_toArray p FAll 3")
      case (Inl e)
      with count nz show ?thesis by (rule assms(3))
    next
      case sample: (Inr ds)
      show ?thesis
      proof (cases "similaritySearchWithScore p query n")
        case (Inl e)
        with count nz sample show ?thesis by (rule assms(4))
      next
        case vec: (Inr result)
        show ?thesis
        proof (cases "result = []")
          case False
          with count nz sample vec show ?thesis by (rule assms(5))
        next
          case True
          with vec have vec0: "similaritySearchWithScore p query n = Inr []" by simp
          show ?thesis
          proof (cases "find_toArray p (text_filter query) n")
            case (Inl e)
            with count nz sample vec0 show ?thesis by (rule assms(6))
          next
            case (Inr textResult)
            with count nz sample vec0 show ?thesis by (rule assms(7))
          qed
        qed
      qed
    qed
  qed
qed


lemma field_result_simps [simp]:
  "field empty_inventory_result ''error'' = Some (JString ''No items found in inventory'')"
  "field empty_inventory_result ''count'' = Some (JNumber 0)"
  "field empty_inventory_result ''searchType'' = None"
  "field (error_result e query) ''error'' = Some (JString ''Failde to seach inventory'')"
  "field (error_result e query) ''details'' = Some (JString (error_text e))"
  "field (error_result e query) ''searchType'' = None"
  "field (error_result e query) ''count'' = None"
  "field (text_result textResult query) ''searchType'' = Some (JString ''text'')"
  "field (text_result textResult query) ''count'' = Some (JNumber (int (length textResult)))"
  "field (text_result textResult query) ''results'' = Some (JDocs textResult)"
  "field (vector_result result query) ''searchType'' = Some (JString ''vector'')"
  "field (vector_result result query) ''count'' = Some (JNumber (int (length result)))"
  "field (vector_result result query) ''results'' = Some (JScored result)"
  by (simp_all add: field_def empty_inventory_result_def error_result_def text_result_def
      vector_result_def)

lemma results_length_simps [simp]:
  "results_length (text_result textResult query) = Some (length textResult)"
  "results_length (vector_result result query) = Some (length result)"
  by (simp_all add: results_length_def)

text \<open>
  Claim C1, as the code has it. When the collection is empty the handler returns the
  empty-inventory result, an error descriptor with count 0, after the one call that counts
  the documents. When it is not empty and no provider call throws, the result's
  \<^verbatim>\<open>searchType\<close> is \<^verbatim>\<open>vector\<close> or \<^verbatim>\<open>text\<close> and its \<^verbatim>\<open>count\<close> is the length of its
  \<^verbatim>\<open>results\<close>. This holds for every query, the empty one included.
\<close>
theorem itemLookupTool_result_shape:
  "countDocuments p = Inr totalCount \<Longrightarrow>
   (totalCount = 0 \<longrightarrow>
      itemLookupTool p query n_arg = (empty_inventory_result, [CountDocuments]) \<and>
      (\<exists>descriptor. field (fst (itemLookupTool p query n_arg)) ''error'' =
         Some (JString descriptor)) \<and>
      field (fst (itemLookupTool p query n_arg)) ''count'' = Some (JNumber 0)) \<and>
   (totalCount \<noteq> 0 \<and> find_toArray p FAll 3 = Inr sampleDocs \<and>
    similaritySearchWithScore p query (n_or_default n_arg) = Inr result \<and>
    (result = [] \<longrightarrow> find_toArray p (text_filter query) (n_or_default n_arg) = Inr textResult) \<longrightarrow>
      (field (fst (itemLookupTool p query n_arg)) ''searchType'' = Some (JString ''vector'') \<or>
       field (fst (itemLookupTool p query n_arg)) ''searchType'' = Some (JString ''text'')) \<and>
      (\<exists>len. results_length (fst (itemLookupTool p query n_arg)) = Some len \<and>
         field (fst (itemLookupTool p query n_arg)) ''count'' = Some (JNumber (int len))))"
proof -
  assume count: "countDocuments p = Inr totalCount"
  let ?n = "n_or_default n_arg"
  let ?obj = "fst (itemLookupTool p query n_arg)"
  have empty: "itemLookupTool p query n_arg = (empty_inventory_result, [CountDocuments])"
    if "totalCount = 0"
    using count that by (simp add: itemLookupTool_def lookup_try_empty)
  have search: "(field ?obj ''searchType'' = Some (JString ''vector'') \<or>
       field ?obj ''searchType'' = Some (JString ''text'')) \<and>
      (\<exists>len. results_length ?obj = Some len \<and> field ?obj ''count'' = Some (JNumber (int len)))"
    if nz: "totalCount \<noteq> 0" and sample: "find_toArray p FAll 3 = Inr sampleDocs"
      and vec: "similaritySearchWithScore p query ?n = Inr result"
      and fallback: "result = [] \<longrightarrow> find_toArray p (text_filter query) ?n = Inr textResult"
  proof (cases "result = []")
    case True
    with count nz sample vec fallback have "lookup_try p query ?n =
        (Inr (text_result textResult query),
         [CountDocuments, Find FAll 3, SimilaritySearch query ?n, Find (text_filter query) ?n])"
      by (intro lookup_try_text) simp_all
    then show ?thesis by (simp add: itemLookupTool_def)
  next
    case False
    with count nz sample vec have "lookup_try p query ?n =
        (Inr (vector_result result query),
         [CountDocuments, Find FAll 3, SimilaritySearch query ?n])"
      by (intro lookup_try_vector) simp_all
    then show ?thesis by (simp add: itemLookupTool_def)
  qed
  from empty search show ?thesis by simp
qed

lemmas lookup_eval = itemLookupTool_def lookup_try_def n_or_default_def memory_provider_def
  limit_def text_filter_def spec_text_filter_def literal_regex_def lower_char_def
  field_values_def oak_table_def no_vector_matches_def vector_unreachable_def
  one_vector_match_def wood_shop_def empty_shop_def offline_shop_def
  indexed_shop_def text_result_def vector_result_def error_result_def
  empty_inventory_result_def field_def results_length_def


theorem itemLookupTool_result_shape_witness:
  "countDocuments wood_shop = Inr 1
   \<and> find_toArray wood_shop FAll 3 = Inr [oak_table]
   \<and> similaritySearchWithScore wood_shop ''oak'' (n_or_default None) = Inr []
   \<and> find_toArray wood_shop (text_filter ''oak'') (n_or_default None) = Inr [oak_table]
   \<and> field (fst (itemLookupTool wood_shop ''oak'' None)) ''searchType'' = Some (JString ''text'')
   \<and> results_length (fst (itemLookupTool wood_shop ''oak'' None)) = Some 1
   \<and> field (fst (itemLookupTool wood_shop ''oak'' None)) ''count'' = Some (JNumber 1)
   \<and> countDocuments empty_shop = Inr 0
   \<and> itemLookupTool empty_shop ''oak'' None = (empty_inventory_result, [CountDocuments])"
proof -
  have c: "countDocuments wood_shop = Inr 1"
    and s: "find_toArray wood_shop FAll 3 = Inr [oak_table]"
    and v: "similaritySearchWithScore wood_shop ''oak'' (n_or_default None) = Inr []"
    and f: "find_toArray wood_shop (text_filter ''oak'') (n_or_default None) = Inr [oak_table]"
    and e: "countDocuments empty_shop = Inr 0"
    and r: "fst (itemLookupTool wood_shop ''oak'' None) = text_result [oak_table] ''oak''"
    by (simp_all add: lookup_eval)
  from itemLookupTool_result_shape [OF c, where query = "''oak''" and n_arg = None
      and sampleDocs = "[oak_table]" and result = "[]" and textResult = "[oak_table]"]
    itemLookupTool_result_shape [OF e, where query = "''oak''" and n_arg = None] c s v f e r
  show ?thesis by simp
qed

text \<open>
  Claim C1 as stated fails: with a collection that is not empty and a vector store that
  cannot be reached, the result for a non-empty query has neither a \<^verbatim>\<open>searchType\<close> nor a
  \<^verbatim>\<open>count\<close>.
\<close>
theorem itemLookupTool_result_shape_counterexample:
  "''oak'' \<noteq> []
   \<and> countDocuments offline_shop = Inr 1
   \<and> fst (itemLookupTool offline_shop ''oak'' None) =
       error_result (JsError ''fetch failed'' None None) ''oak''
   \<and> field (fst (itemLookupTool offline_shop ''oak'' None)) ''searchType'' = None
   \<and> field (fst (itemLookupTool offline_shop ''oak'' None)) ''count'' = None"
  by (simp add: lookup_eval)

text \<open>
  Claim C6. Every result of the handler has an \<^verbatim>\<open>error\<close> field or a \<^verbatim>\<open>searchType\<close>
  field; and when a provider call that the handler reaches throws \<open>e\<close>, the result is the
  object with the fields \<^verbatim>\<open>error\<close>, \<^verbatim>\<open>details\<close> (the message of \<open>e\<close>) and \<^verbatim>\<open>query\<close>.
\<close>
theorem itemLookupTool_never_throws:
  "((\<exists>s. field (fst (itemLookupTool p query n_arg)) ''error'' = Some (JString s)) \<or>
    (\<exists>s. field (fst (itemLookupTool p query n_arg)) ''searchType'' = Some (JString s))) \<and>
   (countDocuments p = Inl e \<or>
    (\<exists>c. countDocuments p = Inr c \<and> c \<noteq> 0 \<and>
       (find_toArray p FAll 3 = Inl e \<or>
        (\<exists>ds. find_toArray p FAll 3 = Inr ds \<and>
           (similaritySearchWithScore p query (n_or_default n_arg) = Inl e \<or>
            similaritySearchWithScore p query (n_or_default n_arg) = Inr [] \<and>
            find_toArray p (text_filter query) (n_or_default n_arg) = Inl e)))) \<longrightarrow>
      fst (itemLookupTool p query n_arg) = error_result e query \<and>
      field (fst (itemLookupTool p query n_arg)) ''error'' =
        Some (JString ''Failde to seach inventory'') \<and>
      field (fst (itemLookupTool p query n_arg)) ''details'' = Some (JString (error_text e)))"
proof -
  let ?n = "n_or_default n_arg"
  let ?obj = "fst (itemLookupTool p query n_arg)"
  have formed: "(\<exists>s. field ?obj ''error'' = Some (JString s)) \<or>
      (\<exists>s. field ?obj ''searchType'' = Some (JString s))"
    by (cases rule: lookup_try_cases [where p = p and query = query and n = "?n"])
      (simp_all add: itemLookupTool_def lookup_try_eqs)
  have caught: "?obj = error_result e query"
    if "countDocuments p = Inl e \<or>
      (\<exists>c. countDocuments p = Inr c \<and> c \<noteq> 0 \<and>
         (find_toArray p FAll 3 = Inl e \<or>
          (\<exists>ds. find_toArray p FAll 3 = Inr ds \<and>
             (similaritySearchWithScore p query ?n = Inl e \<or>
              similaritySearchWithScore p query ?n = Inr [] \<and>
              find_toArray p (text_filter query) ?n = Inl e))))"
    using that by (auto simp add: itemLookupTool_def lookup_try_eqs)
  from formed caught show ?thesis by simp
qed

theorem itemLookupTool_never_throws_witness:
  "countDocuments offline_shop = Inr 1
   \<and> find_toArray offline_shop FAll 3 = Inr [oak_table]
   \<and> similaritySearchWithScore offline_shop ''oak'' (n_or_default None) =
       Inl (JsError ''fetch failed'' None None)
   \<and> field (fst (itemLookupTool offline_shop ''oak'' None)) ''error'' =
       Some (JString ''Failde to seach inventory'')
   \<and> field (fst (itemLookupTool offline_shop ''oak'' None)) ''details'' =
       Some (JString ''fetch failed'')"
proof -
  have c: "countDocuments offline_shop = Inr 1"
    and s: "find_toArray offline_shop FAll 3 = Inr [oak_table]"
    and v: "similaritySearchWithScore offline_shop ''oak'' (n_or_default None) =
      Inl (JsError ''fetch failed'' None None)"
    by (simp_all add: lookup_eval)
  from itemLookupTool_never_throws
    [where p = offline_shop and query = "''oak''" and n_arg = None
      and e = "JsError ''fetch failed'' None None"] c s v
  show ?thesis by simp
qed

lemma matches_text_filter:
  "matches rx (text_filter query) d =
     (\<exists>f \<in> set [''item_name'', ''item_description'', ''categories'', ''embedding_text''].
        \<exists>v \<in> set (field_values d f). rx query ''i'' v)"
  by (simp add: text_filter_def list_ex_iff)

text \<open>
  Claim C2, as the code has it. The text search is made exactly when the similarity search
  was made and resolved to no match. Its filter is a case-insensitive regular-expression
  match of the query against \<^verbatim>\<open>item_name\<close>, \<^verbatim>\<open>item_description\<close>, \<^verbatim>\<open>categories\<close> and
  \<^verbatim>\<open>embedding_text\<close>, requested with limit \<open>n\<close>, and what it resolves to is returned marked
  \<^verbatim>\<open>text\<close>. One or more similarity matches are returned as they are, marked \<^verbatim>\<open>vector\<close>.
\<close>
theorem itemLookupTool_fallback:
  "((Find (text_filter query) (n_or_default n_arg) \<in> set (snd (itemLookupTool p query n_arg))) =
      (SimilaritySearch query (n_or_default n_arg) \<in> set (snd (itemLookupTool p query n_arg)) \<and>
       similaritySearchWithScore p query (n_or_default n_arg) = Inr [])) \<and>
   (\<forall>textResult.
      Find (text_filter query) (n_or_default n_arg) \<in> set (snd (itemLookupTool p query n_arg)) \<and>
      find_toArray p (text_filter query) (n_or_default n_arg) = Inr textResult \<longrightarrow>
        fst (itemLookupTool p query n_arg) = text_result textResult query) \<and>
   (\<forall>result.
      SimilaritySearch query (n_or_default n_arg) \<in> set (snd (itemLookupTool p query n_arg)) \<and>
      similaritySearchWithScore p query (n_or_default n_arg) = Inr result \<and> result \<noteq> [] \<longrightarrow>
        fst (itemLookupTool p query n_arg) = vector_result result query) \<and>
   (\<forall>rx d. matches rx (text_filter query) d =
      (\<exists>f \<in> set [''item_name'', ''item_description'', ''categories'', ''embedding_text''].
         \<exists>v \<in> set (field_values d f). rx query ''i'' v))"
proof -
  let ?n = "n_or_default n_arg"
  let ?run = "itemLookupTool p query n_arg"
  note [simp] = itemLookupTool_def lookup_try_eqs text_filter_not_all
  have exactly: "(Find (text_filter query) ?n \<in> set (snd ?run)) =
      (SimilaritySearch query ?n \<in> set (snd ?run) \<and>
       similaritySearchWithScore p query ?n = Inr [])"
    by (cases rule: lookup_try_cases [where p = p and query = query and n = "?n"]) simp_all
  have fallback: "fst ?run = text_result textResult query"
    if "Find (text_filter query) ?n \<in> set (snd ?run)"
      "find_toArray p (text_filter query) ?n = Inr textResult" for textResult
    using that by (cases rule: lookup_try_cases [where p = p and query = query and n = "?n"]) simp_all
  have direct: "fst ?run = vector_result result query"
    if "SimilaritySearch query ?n \<in> set (snd ?run)"
      "similaritySearchWithScore p query ?n = Inr result" "result \<noteq> []" for result
    using that by (cases rule: lookup_try_cases [where p = p and query = query and n = "?n"]) simp_all
  from exactly fallback direct matches_text_filter [of _ query] show ?thesis
    by blast
qed

theorem itemLookupTool_fallback_witness:
  "snd (itemLookupTool wood_shop ''oak'' None) =
     [CountDocuments, Find FAll 3, SimilaritySearch ''oak'' 10, Find (text_filter ''oak'') 10]
   \<and> similaritySearchWithScore wood_shop ''oak'' 10 = Inr []
   \<and> find_toArray wood_shop (text_filter ''oak'') 10 = Inr [oak_table]
   \<and> fst (itemLookupTool wood_shop ''oak'' None) = text_result [oak_table] ''oak''
   \<and> snd (itemLookupTool indexed_shop ''oak'' (Some 2)) =
     [CountDocuments, Find FAll 3, SimilaritySearch ''oak'' 2]
   \<and> similaritySearchWithScore indexed_shop ''oak'' 2 = Inr [(oak_table, 87)]
   \<and> fst (itemLookupTool indexed_shop ''oak'' (Some 2)) = vector_result [(oak_table, 87)] ''oak''
   \<and> matches literal_regex (text_filter ''oak'') oak_table"
proof -
  have calls: "snd (itemLookupTool wood_shop ''oak'' None) =
      [CountDocuments, Find FAll 3, SimilaritySearch ''oak'' 10, Find (text_filter ''oak'') 10]"
    "snd (itemLookupTool indexed_shop ''oak'' (Some 2)) =
      [CountDocuments, Find FAll 3, SimilaritySearch ''oak'' 2]"
    by (simp_all add: lookup_eval)
  have answers: "similaritySearchWithScore wood_shop ''oak'' 10 = Inr []"
    "find_toArray wood_shop (text_filter ''oak'') 10 = Inr [oak_table]"
    "similaritySearchWithScore indexed_shop ''oak'' 2 = Inr [(oak_table, 87)]"
    by (simp_all add: lookup_eval)
  have m: "matches literal_regex (text_filter ''oak'') oak_table"
    by (simp add: lookup_eval)
  from itemLookupTool_fallback [where p = wood_shop and query = "''oak''" and n_arg = None]
    itemLookupTool_fallback [where p = indexed_shop and query = "''oak''" and n_arg = "Some 2"]
    calls answers m
  show ?thesis by (simp add: n_or_default_def)
qed

text \<open>
  Claim C2 as stated fails: the fallback returns a document that the query matches only in
  \<^verbatim>\<open>embedding_text\<close>, and in none of the name, description and category fields.
\<close>
theorem itemLookupTool_fallback_counterexample:
  "similaritySearchWithScore wood_shop ''oak'' 10 = Inr []
   \<and> fst (itemLookupTool wood_shop ''oak'' None) = text_result [oak_table] ''oak''
   \<and> \<not> matches literal_regex (spec_text_filter ''oak'') oak_table"
  by (simp add: lookup_eval)

section \<open>Properties of the agent\<close>

lemma messages_apply_update:
  "messages (apply_update state update) = messages state @ update"
  by (simp add: apply_update_def reducer_def)

lemma graph_step_agent:
  "graph_step model toolNode (AgentNode, state, l) = Inr (node', state', l') \<Longrightarrow>
   \<exists>result. outcome (callModel model state l) = Inr [result] \<and>
     messages state' = messages state @ [result]"
proof -
  assume step: "graph_step model toolNode (AgentNode, state, l) = Inr (node', state', l')"
  then obtain update where out: "outcome (callModel model state l) = Inr update"
    and st: "state' = apply_update state update"
    by (auto simp add: Let_def split: sum.splits)
  have "1 \<le> (3::int)" by simp
  then have "outcome (callModel model state l) =
      fst (model_op model state (nth_state (model_op model state) l
        (length (attempts (callModel model state l)) - 1)))"
    unfolding callModel_def retryWithBackoff_def by (rule retry_loop_outcome_nth)
  with out obtain l0 where "fst (model_op model state l0) = Inr update" by metis
  then obtain result where "update = [result]"
    by (auto simp add: model_op_def split: prod.splits sum.splits)
  with out st show ?thesis by (simp add: messages_apply_update)
qed

lemma graph_step_tools:
  "graph_step model toolNode (ToolsNode, state, l) = Inr (node', state', l') \<Longrightarrow>
   \<exists>update. toolNode state = Inr update \<and> messages state' = messages state @ update"
  by (auto simp add: messages_apply_update split: sum.splits)

lemma graph_step_prefix:
  "graph_step model toolNode (node, state, l) = Inr (node', state', l') \<Longrightarrow>
   prefix (messages state) (messages state')"
proof (cases node)
  case AgentNode
  assume "graph_step model toolNode (node, state, l) = Inr (node', state', l')"
  with AgentNode have "graph_step model toolNode (AgentNode, state, l) = Inr (node', state', l')"
    by (simp only:)
  from graph_step_agent [OF this] show ?thesis by auto
next
  case ToolsNode
  assume "graph_step model toolNode (node, state, l) = Inr (node', state', l')"
  with ToolsNode have "graph_step model toolNode (ToolsNode, state, l) = Inr (node', state', l')"
    by (simp only:)
  from graph_step_tools [OF this] show ?thesis by auto
next
  case EndNode
  assume "graph_step model toolNode (node, state, l) = Inr (node', state', l')"
  with EndNode show ?thesis by simp
qed

lemma run_steps_prefix:
  "run_steps model toolNode k (node, state, l) = Inr (node', state', l') \<Longrightarrow>
   prefix (messages state) (messages state')"
proof (induction k arbitrary: node state l)
  case 0
  then show ?case by simp
next
  case (Suc k)
  from Suc.prems obtain node1 state1 l1
    where first: "graph_step model toolNode (node, state, l) = Inr (node1, state1, l1)"
      and rest: "run_steps model toolNode k (node1, state1, l1) = Inr (node', state', l')"
    by (auto split: sum.splits)
  from first have "prefix (messages state) (messages state1)" by (rule graph_step_prefix)
  moreover from rest have "prefix (messages state1) (messages state')" by (rule Suc.IH)
  ultimately show ?case by (rule prefix_order.trans)
qed

text \<open>
  Claim C9. The reducer is list concatenation. A run of the agent node appends the one
  message of the model; a run of the tool node appends the update the tool node returns;
  and after any number of node runs the messages the thread had at the start are still
  there, unchanged and in the same positions, as a prefix of the sequence.
\<close>
theorem messages_append_only:
  "reducer x y = x @ y \<and>
   (graph_step model toolNode (AgentNode, state, l) = Inr (node', state', l') \<longrightarrow>
      (\<exists>result. messages state' = messages state @ [result])) \<and>
   (graph_step model toolNode (ToolsNode, state, l) = Inr (node', state', l') \<longrightarrow>
      (\<exists>update. toolNode state = Inr update \<and> messages state' = messages state @ update)) \<and>
   (run_steps model toolNode k (node, state, l) = Inr (node', state', l') \<longrightarrow>
      prefix (messages state) (messages state') \<and>
      length (messages state) \<le> length (messages state') \<and>
      (\<forall>i < length (messages state). messages state' ! i = messages state ! i))"
proof -
  have "prefix (messages state) (messages state') \<and>
      length (messages state) \<le> length (messages state') \<and>
      (\<forall>i < length (messages state). messages state' ! i = messages state ! i)"
    if "run_steps model toolNode k (node, state, l) = Inr (node', state', l')"
  proof -
    from that have "prefix (messages state) (messages state')" by (rule run_steps_prefix)
    then show ?thesis by (auto simp add: prefix_def nth_append)
  qed
  moreover have "\<exists>result. messages state' = messages state @ [result]"
    if "graph_step model toolNode (AgentNode, state, l) = Inr (node', state', l')"
    using graph_step_agent [OF that] by blast
  moreover have "\<exists>update. toolNode state = Inr update \<and>
      messages state' = messages state @ update"
    if "graph_step model toolNode (ToolsNode, state, l) = Inr (node', state', l')"
    using that by (rule graph_step_tools)
  ultimately show ?thesis by (simp add: reducer_def)
qed

lemmas agent_eval = callModel_def model_op_def scripted_model_def throttled_model_def
  unauthorized_model_def one_lookup_model_def lookup_request_def final_answer_def
  stub_toolNode_def question_def shouldContinue_def apply_update_def reducer_def
  retryWithBackoff_def retry_loop.simps scripted_def too_many_requests_def unauthorized_def
  backoff_delay_def Let_def

lemma run_one_lookup:
  "run_steps one_lookup_model stub_toolNode 3 (AgentNode, question, 0) =
     Inr (EndNode,
          \<lparr>messages = [HumanMessage ''Do you have oak tables?'', lookup_request,
             ToolMessage ''1 result'', final_answer]\<rparr>, 2)"
  by (simp add: agent_eval numeral_3_eq_3)

text \<open>
  A turn with one tool round trip: the question, the tool request, the tool result and
  the final answer, each appended after the ones before.
\<close>
theorem messages_append_only_witness:
  "run_steps one_lookup_model stub_toolNode 3 (AgentNode, question, 0) =
     Inr (EndNode,
          \<lparr>messages = [HumanMessage ''Do you have oak tables?'', lookup_request,
             ToolMessage ''1 result'', final_answer]\<rparr>, 2)
   \<and> graph_step one_lookup_model stub_toolNode (AgentNode, question, 0) =
     Inr (ToolsNode, \<lparr>messages = [HumanMessage ''Do you have oak tables?'', lookup_request]\<rparr>, 1)
   \<and> graph_step one_lookup_model stub_toolNode (ToolsNode, question, 0) =
     Inr (AgentNode,
          \<lparr>messages = [HumanMessage ''Do you have oak tables?'', ToolMessage ''1 result'']\<rparr>, 0)
   \<and> prefix (messages question)
       [HumanMessage ''Do you have oak tables?'', lookup_request, ToolMessage ''1 result'',
        final_answer]"
proof -
  have a: "graph_step one_lookup_model stub_toolNode (AgentNode, question, 0) =
      Inr (ToolsNode,
           \<lparr>messages = [HumanMessage ''Do you have oak tables?'', lookup_request]\<rparr>, 1)"
    by (simp add: agent_eval)
  have t: "graph_step one_lookup_model stub_toolNode (ToolsNode, question, 0) =
      Inr (AgentNode,
           \<lparr>messages = [HumanMessage ''Do you have oak tables?'', ToolMessage ''1 result'']\<rparr>,
           0)"
    by (simp add: agent_eval)
  from messages_append_only [where model = one_lookup_model and toolNode = stub_toolNode
      and k = 3 and node = AgentNode and state = question and l = 0 and node' = EndNode
      and state' = "\<lparr>messages = [HumanMessage ''Do you have oak tables?'', lookup_request,
        ToolMessage ''1 result'', final_answer]\<rparr>" and l' = 2] run_one_lookup a t
  show ?thesis by simp
qed


lemma retry_three_429:
  assumes all: "\<forall>i < 3. \<exists>e. fst (fn (nth_state fn s i)) = Inl e \<and> has_status 429 e"
  shows "length (attempts (retryWithBackoff fn 3 s)) = 3"
    and "waits (retryWithBackoff fn 3 s) = [2000, 4000]"
    and "\<exists>e. outcome (retryWithBackoff fn 3 s) = Inl e \<and> has_status 429 e"
proof -
  define r where "r = retryWithBackoff fn 3 s"
  from all show len: "length (attempts (retryWithBackoff fn 3 s)) = 3"
    using retry_loop_all_429 [of 1 3 fn s] by (simp add: retryWithBackoff_def)
  have "length (waits r) = length (attempts r) - 1"
    unfolding r_def retryWithBackoff_def by (rule retry_loop_length_waits)
  with len have lw: "length (waits r) = 2" by (simp add: r_def)
  then have "waits r ! 0 = backoff_delay (1 + int 0)" "waits r ! 1 = backoff_delay (1 + int 1)"
    unfolding r_def retryWithBackoff_def by (simp_all add: retry_loop_waits_nth)
  then have "waits r ! 0 = 2000" "waits r ! 1 = 4000"
    by (simp_all add: backoff_delay_def nat_add_distrib)
  with lw have "waits r = [2000, 4000]"
    by (cases "waits r"; cases "tl (waits r)") auto
  then show "waits (retryWithBackoff fn 3 s) = [2000, 4000]" by (simp add: r_def)
  have "outcome r = fst (fn (nth_state fn s (length (attempts r) - 1)))"
    unfolding r_def retryWithBackoff_def by (rule retry_loop_outcome_nth) simp
  with len have "outcome r = fst (fn (nth_state fn s 2))" by (simp add: r_def)
  with all show "\<exists>e. outcome (retryWithBackoff fn 3 s) = Inl e \<and> has_status 429 e"
    by (simp add: r_def)
qed

lemma has_status_401_not_429: "has_status 401 e \<Longrightarrow> \<not> has_status 429 e"
  by (cases e) auto

text \<open>
  Claim C8. An error with status 429 that reaches the \<^verbatim>\<open>catch\<close> block of \<^verbatim>\<open>callAgent\<close> is
  reported as temporarily unavailable, and one with status 401 as an authentication
  failure. When the model fails with status 429 on three invocations in a row, the agent
  node has made three attempts, has waited 2000 and 4000 milliseconds, and fails with an
  error of status 429. When the model fails with status 401, the agent node fails with
  that error after one attempt and no wait.
\<close>
theorem callAgent_provider_errors:
  "(has_status 429 e \<longrightarrow>
      callAgent (Inl e) =
        Inl (JsError
          ''Service temporarily unavailable due to rate limits. Please try again later.''
          None None)) \<and>
   (has_status 401 e \<longrightarrow>
      callAgent (Inl e) =
        Inl (JsError ''Authentication failed. Please check your API configuration.''
          None None)) \<and>
   ((\<forall>i < 3. \<exists>x. fst (model_op model state (nth_state (model_op model state) l i)) = Inl x \<and>
        has_status 429 x) \<longrightarrow>
      length (attempts (callModel model state l)) = 3 \<and>
      waits (callModel model state l) = [2000, 4000] \<and>
      (\<exists>x. graph_step model toolNode (AgentNode, state, l) = Inl x \<and> has_status 429 x)) \<and>
   (\<forall>x l'. model l (messages state) = (Inl x, l') \<and> has_status 401 x \<longrightarrow>
      attempts (callModel model state l) = [Inl x] \<and>
      waits (callModel model state l) = [] \<and>
      graph_step model toolNode (AgentNode, state, l) = Inl x)"
proof -
  have limited: "has_status 429 e \<longrightarrow>
      callAgent (Inl e) =
        Inl (JsError
          ''Service temporarily unavailable due to rate limits. Please try again later.''
          None None)"
    by (simp add: callAgent_def callAgent_catch_def)
  have denied: "has_status 401 e \<longrightarrow>
      callAgent (Inl e) =
        Inl (JsError ''Authentication failed. Please check your API configuration.''
          None None)"
    by (auto simp add: callAgent_def callAgent_catch_def dest: has_status_401_not_429)
  have exhausted: "length (attempts (callModel model state l)) = 3 \<and>
      waits (callModel model state l) = [2000, 4000] \<and>
      (\<exists>x. graph_step model toolNode (AgentNode, state, l) = Inl x \<and> has_status 429 x)"
    if all: "\<forall>i < 3. \<exists>x. fst (model_op model state (nth_state (model_op model state) l i)) =
      Inl x \<and> has_status 429 x"
  proof -
    from retry_three_429 [OF all] obtain x
      where "length (attempts (callModel model state l)) = 3"
        and "waits (callModel model state l) = [2000, 4000]"
        and "outcome (callModel model state l) = Inl x" and "has_status 429 x"
      unfolding callModel_def by blast
    then show ?thesis by (simp add: Let_def)
  qed
  have immediate: "attempts (callModel model state l) = [Inl x] \<and>
      waits (callModel model state l) = [] \<and>
      graph_step model toolNode (AgentNode, state, l) = Inl x"
    if call: "model l (messages state) = (Inl x, l')" and st: "has_status 401 x" for x l'
  proof -
    from call have "model_op model state l = (Inl x, l')" by (simp add: model_op_def)
    moreover from st have "\<not> (has_status 429 x \<and> (1::int) < 3)"
      by (simp add: has_status_401_not_429)
    ultimately have "callModel model state l =
        \<lparr>outcome = Inl x, final = l', attempts = [Inl x], waits = [], fell_through = False\<rparr>"
      unfolding callModel_def retryWithBackoff_def by (intro retry_loop_throw) simp_all
    then show ?thesis by (simp add: Let_def)
  qed
  from limited denied exhausted immediate show ?thesis by blast
qed

theorem callAgent_provider_errors_witness:
  "has_status 429 too_many_requests
   \<and> has_status 401 unauthorized
   \<and> fst (model_op throttled_model question (nth_state (model_op throttled_model question) 0 0)) =
       Inl too_many_requests
   \<and> fst (model_op throttled_model question (nth_state (model_op throttled_model question) 0 1)) =
       Inl too_many_requests
   \<and> fst (model_op throttled_model question (nth_state (model_op throttled_model question) 0 2)) =
       Inl too_many_requests
   \<and> graph_step throttled_model stub_toolNode (AgentNode, question, 0) = Inl too_many_requests
   \<and> callAgent (Inl too_many_requests) =
       Inl (JsError
         ''Service temporarily unavailable due to rate limits. Please try again later.''
         None None)
   \<and> unauthorized_model 0 (messages question) = (Inl unauthorized, 1)
   \<and> attempts (callModel unauthorized_model question 0) = [Inl unauthorized]
   \<and> graph_step unauthorized_model stub_toolNode (AgentNode, question, 0) = Inl unauthorized
   \<and> callAgent (Inl unauthorized) =
       Inl (JsError ''Authentication failed. Please check your API configuration.'' None None)"
proof -
  have s: "has_status 429 too_many_requests" "has_status 401 unauthorized"
    by (simp_all add: too_many_requests_def unauthorized_def)
  have h: "\<forall>i < 3. \<exists>x.
      fst (model_op throttled_model question (nth_state (model_op throttled_model question) 0 i)) =
        Inl x \<and> has_status 429 x"
    by (simp add: agent_eval)
  have o: "fst (model_op throttled_model question
        (nth_state (model_op throttled_model question) 0 0)) = Inl too_many_requests"
      "fst (model_op throttled_model question
        (nth_state (model_op throttled_model question) 0 1)) = Inl too_many_requests"
      "fst (model_op throttled_model question
        (nth_state (model_op throttled_model question) 0 2)) = Inl too_many_requests"
    by (simp_all add: agent_eval numeral_2_eq_2)
  have g: "graph_step throttled_model stub_toolNode (AgentNode, question, 0) =
      Inl too_many_requests"
    by (simp add: agent_eval)
  have u: "unauthorized_model 0 (messages question) = (Inl unauthorized, 1)"
    by (simp add: agent_eval)
  from callAgent_provider_errors [where e = too_many_requests and model = throttled_model
      and state = question and l = 0 and toolNode = stub_toolNode]
    callAgent_provider_errors [where e = unauthorized and model = unauthorized_model
      and state = question and l = 0 and toolNode = stub_toolNode] s h o g u
  show ?thesis by simp
qed

text \<open>
  The workflow itself has no bound. With a model that asks for a tool on every call and a
  tool node that does not throw, the agent and the tool node take turns and no number of
  node runs reaches the end node: what ends such a turn is the recursion limit that
  \<^verbatim>\<open>callAgent\<close> passes to the library's executor.
\<close>

lemma graph_step_tool_request:
  assumes "model l (messages state) = (Inr (AIMessage c tool_calls), l')"
    and "tool_calls \<noteq> []"
  shows "graph_step model toolNode (AgentNode, state, l) =
    Inr (ToolsNode, apply_update state [AIMessage c tool_calls], l')"
proof -
  from assms(1) have "model_op model state l = (Inr [AIMessage c tool_calls], l')"
    by (simp add: model_op_def)
  then have "callModel model state l =
      \<lparr>outcome = Inr [AIMessage c tool_calls], final = l',
       attempts = [Inr [AIMessage c tool_calls]], waits = [], fell_through = False\<rparr>"
    unfolding callModel_def retryWithBackoff_def by (intro retry_loop_ok) simp_all
  moreover have "shouldContinue (apply_update state [AIMessage c tool_calls]) = Inr ToolsNode"
  proof -
    let ?ms = "messages (apply_update state [AIMessage c tool_calls])"
    have "?ms \<noteq> []" and "last ?ms = AIMessage c tool_calls"
      by (simp_all add: messages_apply_update)
    with assms(2) show ?thesis
      by (cases ?ms) (simp_all add: shouldContinue_def)
  qed
  ultimately show ?thesis by (simp add: Let_def)
qed

lemma run_steps_tool_loop:
  assumes model: "\<And>l ms. \<exists>c tool_calls l'.
      model l ms = (Inr (AIMessage c tool_calls), l') \<and> tool_calls \<noteq> []"
    and tools: "\<And>state. \<exists>update. toolNode state = Inr update"
  shows "node \<noteq> EndNode \<Longrightarrow>
    \<exists>node' state' l'. run_steps model toolNode k (node, state, l) = Inr (node', state', l') \<and>
      node' \<noteq> EndNode"
proof (induction k arbitrary: node state l)
  case 0
  then show ?case by simp
next
  case (Suc k)
  show ?case
  proof (cases node)
    case AgentNode
    from model [of l "messages state"] obtain c tool_calls l1
      where "model l (messages state) = (Inr (AIMessage c tool_calls), l1)"
        and "tool_calls \<noteq> []" by blast
    then have "graph_step model toolNode (AgentNode, state, l) =
        Inr (ToolsNode, apply_update state [AIMessage c tool_calls], l1)"
      by (rule graph_step_tool_request)
    moreover have "\<exists>node' state' l'.
        run_steps model toolNode k
          (ToolsNode, apply_update state [AIMessage c tool_calls], l1) =
          Inr (node', state', l') \<and> node' \<noteq> EndNode"
      by (rule Suc.IH) simp
    ultimately show ?thesis using AgentNode by simp
  next
    case ToolsNode
    from tools [of state] obtain update where "toolNode state = Inr update" by blast
    then have "graph_step model toolNode (ToolsNode, state, l) =
        Inr (AgentNode, apply_update state update, l)"
      by simp
    moreover have "\<exists>node' state' l'.
        run_steps model toolNode k (AgentNode, apply_update state update, l) =
          Inr (node', state', l') \<and> node' \<noteq> EndNode"
      by (rule Suc.IH) simp
    ultimately show ?thesis using ToolsNode by simp
  next
    case EndNode
    with Suc.prems show ?thesis by simp
  qed
qed

end
